theory Spec2Isabelle
  imports Complex_Main "HOL-Library.Word"
begin

section \<open>Data model (pages/models.py)\<close>

text \<open>
  The Django models as records. A \<open>User\<close> row carries the fields the monitoring code
  reads; \<open>email\<close> is a character field, the empty string meaning "no address".
  Timestamps are integers (microseconds), primary keys are integers.
  \<open>response_time_ms\<close> and \<open>created_at\<close> are never read by the code below and are left out.
\<close>

record user_rec =
  user_pk :: int
  email :: string
  is_authenticated :: bool

record monitored_page =
  pk :: int
  user :: user_rec
  url :: string
  check_interval :: int
  notifications_enabled :: bool
  alert_threshold :: int
  screenshot_enabled :: bool
  change_notifications_enabled :: bool
  region_left_pct :: rat
  region_top_pct :: rat
  region_width_pct :: rat
  region_height_pct :: rat

record page_check =
  check_pk :: int
  page_fk :: int
  checked_at :: int
  status_code :: "int option"
  is_up :: bool
  message :: string
  screenshot_path :: string
  crop_path :: string
  diff_path :: string
  diff_score :: "rat option"

text \<open>
  The table of checks is the list of its rows in insertion order. \<open>page.checks\<close> is the
  rows of the page; \<open>order_by('-checked_at')\<close> sorts them newest first (the order among
  equal timestamps is the database's choice; here the sort is stable).
\<close>

definition page_checks :: "page_check list \<Rightarrow> monitored_page \<Rightarrow> page_check list" where
  "page_checks tbl page = filter (\<lambda>c. page_fk c = pk page) tbl"

definition order_by_checked_at_desc :: "page_check list \<Rightarrow> page_check list" where
  "order_by_checked_at_desc cs = sort_key (\<lambda>c. - checked_at c) cs"

definition first_row :: "'a list \<Rightarrow> 'a option" where
  "first_row xs = (case xs of [] \<Rightarrow> None | x # _ \<Rightarrow> Some x)"

section \<open>Notifications (pages/notifications.py)\<close>

text \<open>
  What \<open>handle_post_check_notification\<close> hands to \<open>_send_plain\<close>: the kind of the
  message, the recipient and the subject line. \<open>_send_plain\<close> logs and swallows every
  delivery error, so the function's outcome is the message it hands over, or none.
\<close>

datatype mail_kind = RecoveredMail | DownAlertMail

record mail =
  mail_kind :: mail_kind
  recipient :: string
  subject :: string

text \<open>The loop of \<open>_consecutive_failures\<close>: count rows until the first one that is up.\<close>

fun count_failures :: "bool list \<Rightarrow> nat \<Rightarrow> nat" where
  "count_failures [] count = count"
| "count_failures (up # rest) count = (if up then count else count_failures rest (count + 1))"

definition consecutive_failures :: "page_check list \<Rightarrow> monitored_page \<Rightarrow> nat" where
  "consecutive_failures tbl page =
     count_failures (map is_up (order_by_checked_at_desc (page_checks tbl page))) 0"

definition handle_post_check_notification ::
  "page_check list \<Rightarrow> monitored_page \<Rightarrow> page_check \<Rightarrow> mail option" where
  "handle_post_check_notification tbl page latest_check =
     (if \<not> notifications_enabled page then None
      else if email (user page) = [] then None
      else if is_up latest_check then
        (case first_row (filter (\<lambda>c. check_pk c \<noteq> check_pk latest_check)
                           (order_by_checked_at_desc (page_checks tbl page))) of
           None \<Rightarrow> None
         | Some prev \<Rightarrow>
             if \<not> is_up prev
             then Some \<lparr>mail_kind = RecoveredMail, recipient = email (user page),
                        subject = ''Webpage RECOVERED: '' @ url page\<rparr>
             else None)
      else if alert_threshold page \<le> 0 then None
      else if int (consecutive_failures tbl page) \<noteq> alert_threshold page then None
      else Some \<lparr>mail_kind = DownAlertMail, recipient = email (user page),
                 subject = ''Webpage DOWN alert: '' @ url page\<rparr>)"

text \<open>
  The claims' own words, for comparison with the code: the streak of trailing down checks,
  counted from the most recent backward and stopping at the first up check; and the check
  immediately before the latest one.
\<close>

definition trailing_down_streak :: "page_check list \<Rightarrow> monitored_page \<Rightarrow> nat" where
  "trailing_down_streak tbl page =
     length (takeWhile (\<lambda>c. \<not> is_up c) (order_by_checked_at_desc (page_checks tbl page)))"

definition sent_kind :: "mail option \<Rightarrow> mail_kind \<Rightarrow> bool" where
  "sent_kind r k = (case r of None \<Rightarrow> False | Some m \<Rightarrow> mail_kind m = k)"

subsection \<open>Example rows\<close>

definition ex_user :: "string \<Rightarrow> user_rec" where
  "ex_user addr = \<lparr>user_pk = 1, email = addr, is_authenticated = True\<rparr>"

definition ex_page :: "bool \<Rightarrow> int \<Rightarrow> string \<Rightarrow> monitored_page" where
  "ex_page notify threshold addr =
     \<lparr>pk = 1, user = ex_user addr, url = ''http://example.invalid/health'', check_interval = 5,
      notifications_enabled = notify, alert_threshold = threshold, screenshot_enabled = False,
      change_notifications_enabled = False, region_left_pct = 0, region_top_pct = 0,
      region_width_pct = 1, region_height_pct = 1\<rparr>"

definition ex_check :: "int \<Rightarrow> int \<Rightarrow> bool \<Rightarrow> page_check" where
  "ex_check k t up =
     \<lparr>check_pk = k, page_fk = 1, checked_at = t, status_code = (if up then Some 200 else None),
      is_up = up, message = (if up then ''OK'' else ''ERR''), screenshot_path = [], crop_path = [],
      diff_path = [], diff_score = None\<rparr>"

section \<open>Python values: exceptions, strings, paths\<close>

text \<open>
  Every \<open>raise\<close> of the source is a value: a function that can raise returns
  \<open>exn + 'a\<close>, \<open>Inl\<close> carrying the exception. \<open>ClientError code\<close> is botocore's error
  with its response code; \<open>ConnectionError\<close> stands for the failures of a client call that
  are not a \<open>ClientError\<close> (endpoint unreachable, timeout).
\<close>

datatype exn =
    ClientError string
  | ConnectionError
  | ValueError
  | IndexError
  | OSError
  | UnidentifiedImageError
  | PlaywrightError

type_synonym bytes = "nat list"

fun split_on :: "char \<Rightarrow> string \<Rightarrow> string list" where
  "split_on c [] = [[]]"
| "split_on c (x # xs) =
     (if x = c then [] # split_on c xs
      else (case split_on c xs of [] \<Rightarrow> [[x]] | y # ys \<Rightarrow> (x # y) # ys))"

fun join_with :: "string \<Rightarrow> string list \<Rightarrow> string" where
  "join_with sep [] = []"
| "join_with sep [x] = x"
| "join_with sep (x # y # ys) = x @ sep @ join_with sep (y # ys)"

text \<open>\<open>str.rfind\<close> of one character: the index of its last occurrence.\<close>

fun rfind :: "char \<Rightarrow> string \<Rightarrow> nat option" where
  "rfind c [] = None"
| "rfind c (x # xs) =
     (case rfind c xs of Some i \<Rightarrow> Some (Suc i) | None \<Rightarrow> if x = c then Some 0 else None)"

text \<open>\<open>str(n)\<close> for an integer.\<close>

definition digit_char :: "nat \<Rightarrow> char" where
  "digit_char d = ''0123456789'' ! (d mod 10)"

fun nat_str :: "nat \<Rightarrow> string" where
  "nat_str n = (if n < 10 then [digit_char n] else nat_str (n div 10) @ [digit_char (n mod 10)])"

declare nat_str.simps [simp del]

definition int_str :: "int \<Rightarrow> string" where
  "int_str i = (if i < 0 then CHR ''-'' # nat_str (nat (- i)) else nat_str (nat i))"

text \<open>
  \<open>pathlib.PurePosixPath\<close>: a path is its root (empty, one slash or two slashes) and its
  names; parsing drops empty and \<open>.\<close> components. \<open>with_name\<close> raises \<open>ValueError\<close> on a
  path without a name and on an invalid new name.
\<close>

type_synonym pure_path = "string \<times> string list"

definition posix_root :: "string \<Rightarrow> string" where
  "posix_root s =
     (if take 1 s \<noteq> ''/'' then []
      else if take 2 s = ''//'' \<and> take 3 s \<noteq> ''///'' then ''//''
      else ''/'')"

definition Path :: "string \<Rightarrow> pure_path" where
  "Path s = (posix_root s, filter (\<lambda>p. p \<noteq> [] \<and> p \<noteq> ''.'') (split_on CHR ''/'' s))"

definition path_parts :: "pure_path \<Rightarrow> string list" where
  "path_parts p = (if fst p = [] then snd p else fst p # snd p)"

definition path_name :: "pure_path \<Rightarrow> string" where
  "path_name p = (if snd p = [] then [] else last (snd p))"

definition path_stem :: "pure_path \<Rightarrow> string" where
  "path_stem p =
     (let name = path_name p in
      case rfind CHR ''.'' name of
        None \<Rightarrow> name
      | Some i \<Rightarrow> if 0 < i \<and> i < length name - 1 then take i name else name)"

definition path_str :: "pure_path \<Rightarrow> string" where
  "path_str p = (if fst p = [] \<and> snd p = [] then ''.'' else fst p @ join_with ''/'' (snd p))"

definition with_name :: "pure_path \<Rightarrow> string \<Rightarrow> exn + pure_path" where
  "with_name p name =
     (if path_name p = [] then Inl ValueError
      else if name = [] \<or> CHR ''/'' \<in> set name \<or> name = ''.'' then Inl ValueError
      else Inr (fst p, butlast (snd p) @ [name]))"

definition os_path_join :: "string \<Rightarrow> string \<Rightarrow> string" where
  "os_path_join a b =
     (if take 1 b = ''/'' then b
      else if a = [] \<or> last a = CHR ''/'' then a @ b
      else a @ ''/'' @ b)"

section \<open>Artifact storage (pages/storage.py)\<close>

text \<open>
  The three backends behind one interface. The state of a store is the objects it holds.
  For the local disk the key of an object is its path below the screenshots root, as
  \<open>root / rel_path\<close> normalises it (an absolute \<open>rel_path\<close> replaces the root and keeps
  its leading slash); the local filesystem is taken as reliable. For the two
  S3-compatible backends the key is \<open>_key(rel_path)\<close>, and \<open>fault\<close> is the failure mode of
  the boto3 client: when it is \<open>Some e\<close> every client call raises \<open>e\<close>. A \<open>head_object\<close>
  or \<open>get_object\<close> on a missing key raises \<open>ClientError 404\<close>. \<open>presign\<close> is the client's
  \<open>generate_presigned_url\<close>, \<open>None\<close> when it raises.
\<close>

datatype backend = LocalDisk | GenericS3 | SeaweedFS

record store =
  backend :: backend
  key_prefix :: string
  objects :: "string \<rightharpoonup> bytes"
  fault :: "exn option"
  presign :: "string \<Rightarrow> string option"

definition lstrip_slash :: "string \<Rightarrow> string" where
  "lstrip_slash s = dropWhile (\<lambda>c. c = CHR ''/'') s"

definition s3_key :: "store \<Rightarrow> string \<Rightarrow> string" where
  "s3_key st rel_path =
     (let rel = lstrip_slash (map (\<lambda>c. if c = CHR 0x5C then CHR ''/'' else c) rel_path)
      in if key_prefix st \<noteq> [] then key_prefix st @ ''/'' @ rel else rel)"

definition local_abs :: "string \<Rightarrow> string" where
  "local_abs rel_path = path_str (Path rel_path)"

definition local_is_file :: "store \<Rightarrow> string \<Rightarrow> bool" where
  "local_is_file st rel_path =
     (snd (Path rel_path) \<noteq> [] \<and> objects st (local_abs rel_path) \<noteq> None)"

definition head_object :: "store \<Rightarrow> string \<Rightarrow> exn + unit" where
  "head_object st key =
     (case fault st of
        Some e \<Rightarrow> Inl e
      | None \<Rightarrow> if objects st key = None then Inl (ClientError ''404'') else Inr ())"

definition get_object :: "store \<Rightarrow> string \<Rightarrow> exn + bytes" where
  "get_object st key =
     (case fault st of
        Some e \<Rightarrow> Inl e
      | None \<Rightarrow> (case objects st key of None \<Rightarrow> Inl (ClientError ''404'') | Some b \<Rightarrow> Inr b))"

definition put_object :: "store \<Rightarrow> string \<Rightarrow> bytes \<Rightarrow> exn + store" where
  "put_object st key data =
     (case fault st of
        Some e \<Rightarrow> Inl e
      | None \<Rightarrow> Inr (st\<lparr>objects := (objects st)(key \<mapsto> data)\<rparr>))"

definition delete_object :: "store \<Rightarrow> string \<Rightarrow> exn + store" where
  "delete_object st key =
     (case fault st of
        Some e \<Rightarrow> Inl e
      | None \<Rightarrow> Inr (st\<lparr>objects := (objects st)(key := None)\<rparr>))"

definition storage_exists :: "store \<Rightarrow> string \<Rightarrow> exn + bool" where
  "storage_exists st rel_path =
     (case backend st of
        LocalDisk \<Rightarrow> Inr (local_is_file st rel_path)
      | GenericS3 \<Rightarrow>
          (case head_object st (s3_key st rel_path) of
             Inr _ \<Rightarrow> Inr True
           | Inl (ClientError code) \<Rightarrow>
               if code = ''404'' \<or> code = ''NoSuchKey'' then Inr False else Inl (ClientError code)
           | Inl e \<Rightarrow> Inl e)
      | SeaweedFS \<Rightarrow>
          (case head_object st (s3_key st rel_path) of
             Inr _ \<Rightarrow> Inr True
           | Inl (ClientError code) \<Rightarrow>
               if code = ''404'' \<or> code = ''NoSuchKey'' \<or> code = ''403'' \<or> code = ''Forbidden''
               then Inr False else Inr False
           | Inl e \<Rightarrow> Inr False))"

definition storage_save :: "store \<Rightarrow> string \<Rightarrow> bytes \<Rightarrow> exn + store" where
  "storage_save st rel_path data =
     (case backend st of
        LocalDisk \<Rightarrow>
          if snd (Path rel_path) = [] then Inl OSError
          else Inr (st\<lparr>objects := (objects st)(local_abs rel_path \<mapsto> data)\<rparr>)
      | GenericS3 \<Rightarrow> put_object st (s3_key st rel_path) data
      | SeaweedFS \<Rightarrow> put_object st (s3_key st rel_path) data)"

definition storage_delete :: "store \<Rightarrow> string \<Rightarrow> store" where
  "storage_delete st rel_path =
     (if rel_path = [] then st
      else case backend st of
        LocalDisk \<Rightarrow>
          if local_is_file st rel_path
          then st\<lparr>objects := (objects st)(local_abs rel_path := None)\<rparr> else st
      | GenericS3 \<Rightarrow>
          (case delete_object st (s3_key st rel_path) of Inl e \<Rightarrow> st | Inr st' \<Rightarrow> st')
      | SeaweedFS \<Rightarrow>
          (case delete_object st (s3_key st rel_path) of Inl e \<Rightarrow> st | Inr st' \<Rightarrow> st'))"

definition storage_open :: "store \<Rightarrow> string \<Rightarrow> exn + bytes" where
  "storage_open st rel_path =
     (case backend st of
        LocalDisk \<Rightarrow>
          (if local_is_file st rel_path
           then (case objects st (local_abs rel_path) of None \<Rightarrow> Inl OSError | Some b \<Rightarrow> Inr b)
           else Inl OSError)
      | GenericS3 \<Rightarrow> get_object st (s3_key st rel_path)
      | SeaweedFS \<Rightarrow> get_object st (s3_key st rel_path))"

definition storage_url :: "store \<Rightarrow> string \<Rightarrow> string" where
  "storage_url st rel_path =
     (case backend st of
        LocalDisk \<Rightarrow> ''/api/screenshots/'' @ rel_path
      | GenericS3 \<Rightarrow> (case presign st (s3_key st rel_path) of None \<Rightarrow> [] | Some u \<Rightarrow> u)
      | SeaweedFS \<Rightarrow> ''/api/screenshots/'' @ rel_path)"

text \<open>
  \<open>local_path\<close> gives a file on the local disk holding the object, or \<open>None\<close>; the model
  gives the bytes of that file. The S3-compatible backends download into a temporary file
  and return \<open>None\<close> on any failure.
\<close>

definition storage_local_path :: "store \<Rightarrow> string \<Rightarrow> bytes option" where
  "storage_local_path st rel_path =
     (case backend st of
        LocalDisk \<Rightarrow> if local_is_file st rel_path then objects st (local_abs rel_path) else None
      | GenericS3 \<Rightarrow>
          (case get_object st (s3_key st rel_path) of Inl e \<Rightarrow> None | Inr b \<Rightarrow> Some b)
      | SeaweedFS \<Rightarrow>
          (case get_object st (s3_key st rel_path) of Inl e \<Rightarrow> None | Inr b \<Rightarrow> Some b))"

text \<open>\<open>delete_screenshot_file\<close> of pages/screenshots.py.\<close>

definition delete_screenshot_file :: "store \<Rightarrow> string \<Rightarrow> store" where
  "delete_screenshot_file st rel_path =
     (if rel_path \<noteq> [] then storage_delete st rel_path else st)"

section \<open>Screenshots and visual diff (pages/screenshots.py)\<close>

text \<open>
  An image is its size and its pixels (red, green, blue). The libraries the module calls
  are parameters: Pillow's decoder and JPEG encoder, its crop and resize, Playwright's
  rendering, and \<open>imagehash.phash\<close> with its 64-bit result; each can raise. The regions of
  interest and the highlight colours are computed in floating point by the source, so the
  cropped, resized and highlighted images are taken from the library record as well.
\<close>

type_synonym rgb = "nat \<times> nat \<times> nat"

record image =
  width :: nat
  height :: nat
  pixel :: "nat \<Rightarrow> nat \<Rightarrow> rgb"

record libs =
  playwright_installed :: bool
  imagehash_installed :: bool
  render_page :: "string \<Rightarrow> exn + image"
  image_open :: "bytes \<Rightarrow> exn + image"
  jpeg_bytes :: "image \<Rightarrow> nat \<Rightarrow> exn + bytes"
  crop_box :: "image \<Rightarrow> rat \<times> rat \<times> rat \<times> rat \<Rightarrow> exn + image"
  resize_thumb :: "image \<Rightarrow> exn + image"
  phash :: "image \<Rightarrow> exn + 64 word"
  highlight :: "image \<Rightarrow> image \<Rightarrow> exn + image"

definition MAX_SCREENSHOTS_PER_PAGE :: nat where
  "MAX_SCREENSHOTS_PER_PAGE = 30"

definition JPEG_QUALITY :: nat where
  "JPEG_QUALITY = 82"

definition THUMBNAIL_JPEG_QUALITY :: nat where
  "THUMBNAIL_JPEG_QUALITY = 55"

text \<open>
  \<open>_unique_filename\<close>: the name is the first ten hexadecimal digits of the MD5 digest of
  the clock reading; the digits \<open>h\<close> are the parameter.
\<close>

definition unique_filename :: "int \<Rightarrow> string \<Rightarrow> string \<Rightarrow> string" where
  "unique_filename page_id h suffix = os_path_join (int_str page_id) (h @ suffix)"

definition thumb_rel :: "string \<Rightarrow> exn + string" where
  "thumb_rel source_rel =
     (let p = Path source_rel in
      case with_name p (path_stem p @ ''_thumb.jpg'') of
        Inl e \<Rightarrow> Inl e
      | Inr q \<Rightarrow> Inr (path_str q))"

definition crop_rel_of :: "string \<Rightarrow> exn + string" where
  "crop_rel_of full_rel =
     (let p = Path full_rel in
      case with_name p (path_stem p @ ''_crop.jpg'') of
        Inl e \<Rightarrow> Inl e
      | Inr q \<Rightarrow> Inr (path_str q))"

definition create_thumbnail :: "libs \<Rightarrow> store \<Rightarrow> string \<Rightarrow> exn + (string \<times> store)" where
  "create_thumbnail lb st source_rel =
     (case thumb_rel source_rel of
        Inl e \<Rightarrow> Inl e
      | Inr t \<Rightarrow>
          (case storage_exists st t of
             Inl e \<Rightarrow> Inl e
           | Inr True \<Rightarrow> Inr (t, st)
           | Inr False \<Rightarrow>
               (case storage_local_path st source_rel of
                  None \<Rightarrow> Inr ([], st)
                | Some b \<Rightarrow>
                    (case image_open lb b of
                       Inl e \<Rightarrow> Inr ([], st)
                     | Inr img \<Rightarrow>
                         (case resize_thumb lb img of
                            Inl e \<Rightarrow> Inr ([], st)
                          | Inr thumb \<Rightarrow>
                              (case jpeg_bytes lb thumb THUMBNAIL_JPEG_QUALITY of
                                 Inl e \<Rightarrow> Inr ([], st)
                               | Inr data \<Rightarrow>
                                   (case storage_save st t data of
                                      Inl e \<Rightarrow> Inr ([], st)
                                    | Inr st' \<Rightarrow> Inr (t, st'))))))))"

definition get_page :: "monitored_page list \<Rightarrow> int \<Rightarrow> monitored_page option" where
  "get_page pages page_id = find (\<lambda>p. pk p = page_id) pages"

definition crop_to_region ::
  "libs \<Rightarrow> store \<Rightarrow> monitored_page list \<Rightarrow> string \<Rightarrow> int \<Rightarrow> string option \<times> store" where
  "crop_to_region lb st pages full_rel page_id =
     (case get_page pages page_id of
        None \<Rightarrow> (None, st)
      | Some page \<Rightarrow>
          if region_width_pct page \<ge> 1 \<and> region_height_pct page \<ge> 1 \<and>
             region_left_pct page \<le> 0 \<and> region_top_pct page \<le> 0
          then (None, st)
          else
            (case storage_local_path st full_rel of
               None \<Rightarrow> (None, st)
             | Some b \<Rightarrow>
                 (case image_open lb b of
                    Inl e \<Rightarrow> (None, st)
                  | Inr img \<Rightarrow>
                      (case crop_box lb img (region_left_pct page, region_top_pct page,
                                              region_width_pct page, region_height_pct page) of
                         Inl e \<Rightarrow> (None, st)
                       | Inr cropped \<Rightarrow>
                           (case jpeg_bytes lb cropped JPEG_QUALITY of
                              Inl e \<Rightarrow> (None, st)
                            | Inr data \<Rightarrow>
                                (case crop_rel_of full_rel of
                                   Inl e \<Rightarrow> (None, st)
                                 | Inr crop_rel \<Rightarrow>
                                     (case storage_save st crop_rel data of
                                        Inl e \<Rightarrow> (None, st)
                                      | Inr st' \<Rightarrow> (Some crop_rel, st'))))))))"

definition capture_screenshot ::
  "libs \<Rightarrow> store \<Rightarrow> monitored_page list \<Rightarrow> string \<Rightarrow> string \<Rightarrow> int
     \<Rightarrow> (string \<times> string) \<times> store" where
  "capture_screenshot lb st pages h url_arg page_id =
     (if \<not> playwright_installed lb then (([], []), st)
      else
        let rel_path = unique_filename page_id h ''.jpg'' in
        case render_page lb url_arg of
          Inl e \<Rightarrow> (([], []), st)
        | Inr raw \<Rightarrow>
            (case jpeg_bytes lb raw JPEG_QUALITY of
               Inl e \<Rightarrow> (([], []), st)
             | Inr jpeg_data \<Rightarrow>
                 (case storage_save st rel_path jpeg_data of
                    Inl e \<Rightarrow> (([], []), st)
                  | Inr st1 \<Rightarrow>
                      (case crop_to_region lb st1 pages rel_path page_id of
                         (crop, st2) \<Rightarrow>
                           (case create_thumbnail lb st2 rel_path of
                              Inl e \<Rightarrow> (([], []), st2)
                            | Inr (t, st3) \<Rightarrow>
                                ((rel_path, case crop of None \<Rightarrow> [] | Some c \<Rightarrow> c), st3))))))"

text \<open>
  The two canvases of \<open>compute_diff\<close>: a white image of the common size with the
  screenshot pasted at the top left corner.
\<close>

definition white :: rgb where
  "white = (255, 255, 255)"

definition new_image :: "nat \<Rightarrow> nat \<Rightarrow> rgb \<Rightarrow> image" where
  "new_image w h colour = \<lparr>width = w, height = h, pixel = (\<lambda>x y. colour)\<rparr>"

definition paste :: "image \<Rightarrow> image \<Rightarrow> image" where
  "paste cv img =
     cv\<lparr>pixel := (\<lambda>x y. if x < min (width cv) (width img) \<and> y < min (height cv) (height img)
                          then pixel img x y else pixel cv x y)\<rparr>"

definition canvas :: "nat \<Rightarrow> nat \<Rightarrow> image \<Rightarrow> image" where
  "canvas w h img = paste (new_image w h white) img"

text \<open>
  \<open>hash_prev - hash_curr\<close> is the number of positions where the two 64-bit hashes differ.
  The score is \<open>round((d / 64) * 100, 2)\<close>. For \<open>d\<close> up to 64 the quotient and the product
  are exact in binary floating point (a multiple of 1/16), and so is the product by 100
  that rounding to two places inspects, so the result is the decimal \<open>k / 100\<close> with \<open>k\<close> the
  nearest integer to \<open>d * 156.25\<close>, ties going to the even one; the score is that rational.
\<close>

definition hamming :: "64 word \<Rightarrow> 64 word \<Rightarrow> nat" where
  "hamming a b = length (filter (\<lambda>i. bit a i \<noteq> bit b i) [0..<64])"

definition round_half_even :: "rat \<Rightarrow> int" where
  "round_half_even q =
     (let f = \<lfloor>q\<rfloor>; r = q - of_int f in
      if r < 1 / 2 then f else if 1 / 2 < r then f + 1 else if even f then f else f + 1)"

definition py_round2 :: "rat \<Rightarrow> rat" where
  "py_round2 x = of_int (round_half_even (x * 100)) / 100"

definition diff_score_of :: "nat \<Rightarrow> rat" where
  "diff_score_of d = py_round2 ((of_nat d / 64) * 100)"

definition compute_diff ::
  "libs \<Rightarrow> store \<Rightarrow> string \<Rightarrow> string \<Rightarrow> string \<Rightarrow> int
     \<Rightarrow> exn + ((string \<times> rat option) \<times> store)" where
  "compute_diff lb st h prev_rel_path curr_rel_path page_id =
     (if prev_rel_path = [] \<or> curr_rel_path = [] then Inr (([], None), st)
      else case storage_exists st prev_rel_path of
        Inl e \<Rightarrow> Inl e
      | Inr False \<Rightarrow> Inr (([], None), st)
      | Inr True \<Rightarrow>
      (case storage_exists st curr_rel_path of
        Inl e \<Rightarrow> Inl e
      | Inr False \<Rightarrow> Inr (([], None), st)
      | Inr True \<Rightarrow>
      if \<not> imagehash_installed lb then Inr (([], None), st)
      else case (storage_local_path st prev_rel_path, storage_local_path st curr_rel_path) of
        (None, _) \<Rightarrow> Inr (([], None), st)
      | (_, None) \<Rightarrow> Inr (([], None), st)
      | (Some prev_local, Some curr_local) \<Rightarrow>
      (case image_open lb prev_local of
        Inl e \<Rightarrow> Inr (([], None), st)
      | Inr img_prev \<Rightarrow>
      (case image_open lb curr_local of
        Inl e \<Rightarrow> Inr (([], None), st)
      | Inr img_curr \<Rightarrow>
      let w = max (width img_prev) (width img_curr);
          h' = max (height img_prev) (height img_curr);
          canvas_prev = canvas w h' img_prev;
          canvas_curr = canvas w h' img_curr
      in
      case phash lb canvas_prev of
        Inl e \<Rightarrow> Inr (([], None), st)
      | Inr hash_prev \<Rightarrow>
      (case phash lb canvas_curr of
        Inl e \<Rightarrow> Inr (([], None), st)
      | Inr hash_curr \<Rightarrow>
      let score = diff_score_of (hamming hash_prev hash_curr) in
      if 0 < score then
        (case highlight lb canvas_prev canvas_curr of
           Inl e \<Rightarrow> Inr (([], None), st)
         | Inr diff_img \<Rightarrow>
         (case jpeg_bytes lb diff_img JPEG_QUALITY of
           Inl e \<Rightarrow> Inr (([], None), st)
         | Inr diff_data \<Rightarrow>
         let diff_rel = unique_filename page_id h ''_diff.jpg'' in
         case storage_save st diff_rel diff_data of
           Inl e \<Rightarrow> Inr (([], None), st)
         | Inr st' \<Rightarrow> Inr ((diff_rel, Some score), st')))
      else Inr (([], Some score), st))))))"

subsection \<open>Pruning\<close>

text \<open>
  \<open>cleanup_old_screenshots\<close>: the rows of the page with a screenshot path, newest first,
  beyond the first \<open>limit\<close>. For each the three files and the thumbnail are deleted and the
  row is saved with its three paths cleared. \<open>_thumb_rel\<close> can raise; the loop then stops
  with the rows and files handled so far. The limit is a count (Django refuses a negative
  slice).
\<close>

definition clear_paths :: "page_check list \<Rightarrow> int \<Rightarrow> page_check list" where
  "clear_paths tbl k =
     map (\<lambda>c. if check_pk c = k
                then c\<lparr>screenshot_path := [], crop_path := [], diff_path := []\<rparr> else c) tbl"

fun prune_loop ::
  "page_check list \<Rightarrow> page_check list \<Rightarrow> store \<Rightarrow> exn option \<times> page_check list \<times> store" where
  "prune_loop [] tbl st = (None, tbl, st)"
| "prune_loop (c # rest) tbl st =
     (let st1 = delete_screenshot_file st (screenshot_path c);
          st2 = delete_screenshot_file st1 (crop_path c);
          st3 = delete_screenshot_file st2 (diff_path c)
      in if screenshot_path c \<noteq> [] then
           (case thumb_rel (screenshot_path c) of
              Inl e \<Rightarrow> (Some e, tbl, st3)
            | Inr t \<Rightarrow>
                prune_loop rest (clear_paths tbl (check_pk c)) (delete_screenshot_file st3 t))
         else prune_loop rest (clear_paths tbl (check_pk c)) st3)"

definition checks_with_ss :: "page_check list \<Rightarrow> monitored_page \<Rightarrow> page_check list" where
  "checks_with_ss tbl page =
     order_by_checked_at_desc (filter (\<lambda>c. screenshot_path c \<noteq> []) (page_checks tbl page))"

definition cleanup_old_screenshots ::
  "nat \<Rightarrow> page_check list \<Rightarrow> store \<Rightarrow> monitored_page
     \<Rightarrow> exn option \<times> page_check list \<times> store" where
  "cleanup_old_screenshots limit tbl st page =
     (let to_prune = drop limit (checks_with_ss tbl page)
      in if to_prune = [] then (None, tbl, st) else prune_loop to_prune tbl st)"

section \<open>The check executor (pages/management/commands/run_checks.py)\<close>

text \<open>
  \<open>_run_single_check\<close>. The outcome of the HTTP probe (status code, up or down, message),
  the clock and the two fresh file names are inputs. The screenshot block runs inside
  \<open>try ... except Exception: pass\<close>: when \<open>compute_diff\<close> raises, the paths of the
  capture stay and there is neither diff path nor score. The row is then created, old
  screenshots are pruned when the row has a screenshot, and the uptime notification is
  decided; an exception of the pruning leaves the function. The visual-change mail that
  follows changes neither the table nor the store and is not part of the model.
\<close>

definition capture_and_diff ::
  "libs \<Rightarrow> store \<Rightarrow> monitored_page list \<Rightarrow> page_check list \<Rightarrow> monitored_page \<Rightarrow> bool
     \<Rightarrow> string \<Rightarrow> string \<Rightarrow> (string \<times> string \<times> string \<times> rat option) \<times> store" where
  "capture_and_diff lb st pages tbl page up h_shot h_diff =
     (if screenshot_enabled page \<and> up then
        let last_check = first_row (order_by_checked_at_desc (page_checks tbl page)) in
        case capture_screenshot lb st pages h_shot (url page) (pk page) of
          ((screenshot_rel, crop_rel), st1) \<Rightarrow>
            let diff_source = (if crop_rel \<noteq> [] then crop_rel else screenshot_rel) in
            (case last_check of
               None \<Rightarrow> ((screenshot_rel, crop_rel, [], None), st1)
             | Some lc \<Rightarrow>
                 if screenshot_rel \<noteq> [] \<and> screenshot_path lc \<noteq> [] then
                   let prev_diff_source =
                         (if crop_path lc \<noteq> [] then crop_path lc else screenshot_path lc)
                   in
                   (case compute_diff lb st1 h_diff prev_diff_source diff_source (pk page) of
                      Inl e \<Rightarrow> ((screenshot_rel, crop_rel, [], None), st1)
                    | Inr ((diff_rel, score), st2) \<Rightarrow>
                        if score = Some 0 then
                          let st3 = delete_screenshot_file st2 screenshot_rel;
                              st4 = (if crop_rel \<noteq> [] then delete_screenshot_file st3 crop_rel
                                     else st3)
                          in ((screenshot_path lc, crop_path lc, diff_rel, score), st4)
                        else ((screenshot_rel, crop_rel, diff_rel, score), st2))
                 else ((screenshot_rel, crop_rel, [], None), st1))
      else (([], [], [], None), st))"

definition next_pk :: "page_check list \<Rightarrow> int" where
  "next_pk tbl = fold max (map check_pk tbl) 0 + 1"

record check_outcome =
  created :: page_check
  table_after :: "page_check list"
  store_after :: store
  raised :: "exn option"
  uptime_mail :: "mail option"

definition run_single_check ::
  "libs \<Rightarrow> store \<Rightarrow> monitored_page list \<Rightarrow> page_check list \<Rightarrow> monitored_page
     \<Rightarrow> int option \<times> bool \<times> string \<Rightarrow> string \<Rightarrow> string \<Rightarrow> int \<Rightarrow> nat \<Rightarrow> check_outcome" where
  "run_single_check lb st pages tbl page probe h_shot h_diff now limit =
     (case probe of (status, up, msg) \<Rightarrow>
      case capture_and_diff lb st pages tbl page up h_shot h_diff of
        ((screenshot_rel, crop_rel, diff_rel, score), st1) \<Rightarrow>
          let latest = \<lparr>check_pk = next_pk tbl, page_fk = pk page, checked_at = now,
                         status_code = status, is_up = up, message = msg,
                         screenshot_path = screenshot_rel, crop_path = crop_rel,
                         diff_path = diff_rel, diff_score = score\<rparr>;
              tbl1 = tbl @ [latest]
          in
          case (if screenshot_rel \<noteq> [] then cleanup_old_screenshots limit tbl1 st1 page
                else (None, tbl1, st1)) of
            (Some e, tbl2, st2) \<Rightarrow>
              \<lparr>created = latest, table_after = tbl2, store_after = st2, raised = Some e,
               uptime_mail = None\<rparr>
          | (None, tbl2, st2) \<Rightarrow>
              \<lparr>created = latest, table_after = tbl2, store_after = st2, raised = None,
               uptime_mail = handle_post_check_notification tbl2 page latest\<rparr>)"

section \<open>Serving artifacts (pages/views.py)\<close>

text \<open>
  \<open>int(s)\<close> is Python's builtin. Its value on the first segment of the path is the
  parameter \<open>int_of\<close> of \<open>serve_screenshot\<close>, \<open>None\<close> where \<open>int\<close> raises
  \<open>ValueError\<close>; nothing is assumed about which strings it accepts.
\<close>

definition lower :: "string \<Rightarrow> string" where
  "lower s = map (\<lambda>c. if 65 \<le> (of_char c :: nat) \<and> (of_char c :: nat) \<le> 90
                       then char_of (of_char c + 32 :: nat) else c) s"

definition endswith :: "string \<Rightarrow> string \<Rightarrow> bool" where
  "endswith s sfx = (length sfx \<le> length s \<and> drop (length s - length sfx) s = sfx)"

datatype response =
    JsonResponse nat
  | Http404
  | HttpResponseRedirect string
  | HttpResponse bytes string
  | FileResponse bytes string
  | ServerError exn

record settings =
  USE_S3_STORAGE :: bool
  USE_SEAWEEDFS_STORAGE :: bool

definition make_storage_backend :: "settings \<Rightarrow> backend" where
  "make_storage_backend cfg =
     (if USE_SEAWEEDFS_STORAGE cfg then SeaweedFS
      else if USE_S3_STORAGE cfg then GenericS3 else LocalDisk)"

text \<open>
  \<open>serve_screenshot\<close>. The request carries the user the session middleware resolved, if
  any. \<open>raise Http404\<close> is the response \<open>Http404\<close>; an exception that nothing catches
  (from \<open>exists\<close>) is Django's server error and carries no bytes.
\<close>

definition serve_screenshot ::
  "(string \<Rightarrow> int option) \<Rightarrow> settings \<Rightarrow> store \<Rightarrow> monitored_page list \<Rightarrow> user_rec option
     \<Rightarrow> string \<Rightarrow> response" where
  "serve_screenshot int_of cfg st pages request_user path =
     (case request_user of
        None \<Rightarrow> JsonResponse 401
      | Some u \<Rightarrow>
          if \<not> is_authenticated u then JsonResponse 401
          else
            let safe = Path path in
            if ''..'' \<in> set (path_parts safe) then Http404
            else case path_parts safe of
              [] \<Rightarrow> Http404
            | p0 # _ \<Rightarrow>
                (case int_of p0 of
                   None \<Rightarrow> Http404
                 | Some page_id \<Rightarrow>
                     if filter (\<lambda>p. pk p = page_id \<and> user_pk (user p) = user_pk u) pages = []
                     then JsonResponse 403
                     else
                       let rel = path_str safe;
                           content_type = (if endswith (lower rel) ''.jpg'' then ''image/jpeg''
                                           else ''image/png'')
                       in case storage_exists st rel of
                         Inl e \<Rightarrow> ServerError e
                       | Inr False \<Rightarrow> Http404
                       | Inr True \<Rightarrow>
                           if USE_S3_STORAGE cfg then
                             (let presigned = storage_url st rel
                              in if presigned = [] then Http404
                                 else HttpResponseRedirect presigned)
                           else if USE_SEAWEEDFS_STORAGE cfg then
                             (case storage_open st rel of
                                Inl e \<Rightarrow> Http404
                              | Inr body \<Rightarrow> HttpResponse body content_type)
                           else
                             (case storage_local_path st rel of
                                None \<Rightarrow> Http404
                              | Some b \<Rightarrow> FileResponse b content_type)))"

text \<open>A response that carries the artifact: its bytes, or a redirect to them.\<close>

definition serves_artifact :: "response \<Rightarrow> bool" where
  "serves_artifact r =
     (case r of
        HttpResponseRedirect _ \<Rightarrow> True
      | HttpResponse _ _ \<Rightarrow> True
      | FileResponse _ _ \<Rightarrow> True
      | _ \<Rightarrow> False)"

subsection \<open>Example stores, images and libraries\<close>

definition ex_store :: "backend \<Rightarrow> exn option \<Rightarrow> (string \<rightharpoonup> bytes) \<Rightarrow> store" where
  "ex_store b f objs =
     \<lparr>backend = b, key_prefix = ''screenshots'', objects = objs, fault = f,
      presign = (\<lambda>k. Some (''https://s3.example.invalid/'' @ k))\<rparr>"

definition ex_image :: "rgb \<Rightarrow> image" where
  "ex_image colour = \<lparr>width = 1, height = 1, pixel = (\<lambda>x y. colour)\<rparr>"

definition ex_libs :: libs where
  "ex_libs =
     \<lparr>playwright_installed = True, imagehash_installed = True,
      render_page = (\<lambda>u. Inr (ex_image white)),
      image_open = (\<lambda>b. if b = [0] then Inr (ex_image (0, 0, 0))
                          else if b = [255] then Inr (ex_image white)
                          else Inl UnidentifiedImageError),
      jpeg_bytes = (\<lambda>img q. Inr [fst (pixel img 0 0)]),
      crop_box = (\<lambda>img box. Inr img),
      resize_thumb = (\<lambda>img. Inr img),
      phash = (\<lambda>img. Inr (if pixel img 0 0 = white then 0 else 1)),
      highlight = (\<lambda>a b. Inr b)\<rparr>"

definition ex_disk :: store where
  "ex_disk = ex_store LocalDisk None
     [''1/0000000000.jpg'' \<mapsto> [0], ''1/aaaaaaaaaa.jpg'' \<mapsto> [255], ''1/cccccccccc.jpg'' \<mapsto> [255]]"

text \<open>The value of \<open>int\<close> on the one numeral the examples parse.\<close>

definition ex_int_of :: "string \<Rightarrow> int option" where
  "ex_int_of s = (if s = ''1'' then Some 1 else None)"

definition ex_settings :: settings where
  "ex_settings = \<lparr>USE_S3_STORAGE = False, USE_SEAWEEDFS_STORAGE = False\<rparr>"

definition ex_page_ss :: monitored_page where
  "ex_page_ss = (ex_page False 3 ''u1@example.com'')\<lparr>screenshot_enabled := True\<rparr>"

definition ex_row_ss :: "int \<Rightarrow> int \<Rightarrow> string \<Rightarrow> rat option \<Rightarrow> page_check" where
  "ex_row_ss k t p sc = (ex_check k t True)\<lparr>screenshot_path := p, diff_score := sc\<rparr>"

definition ex_disk_captured :: store where
  "ex_disk_captured =
     ex_disk\<lparr>objects := (objects ex_disk)(''1/eeeeeeeeee.jpg'' \<mapsto> [255],
                                            ''1/eeeeeeeeee_thumb.jpg'' \<mapsto> [255])\<rparr>"

section \<open>Properties of the notification trigger\<close>

lemma count_failures_takeWhile:
  "count_failures ups n = n + length (takeWhile (\<lambda>u. \<not> u) ups)"
  by (induction ups arbitrary: n) auto

lemma consecutive_failures_streak:
  "consecutive_failures tbl page = trailing_down_streak tbl page"
  by (simp add: consecutive_failures_def trailing_down_streak_def count_failures_takeWhile
      takeWhile_map comp_def)

lemma ordered_pks_distinct:
  "distinct (map check_pk tbl) \<Longrightarrow> distinct (map check_pk (order_by_checked_at_desc (page_checks tbl page)))"
  by (simp add: order_by_checked_at_desc_def page_checks_def distinct_map distinct_map_filter
      inj_on_def)

lemma prior_is_next:
  assumes "distinct (map check_pk (latest # older))"
  shows "filter (\<lambda>c. check_pk c \<noteq> check_pk latest) (latest # older) = older"
proof -
  have "\<forall>c \<in> set older. check_pk c \<noteq> check_pk latest"
    using assms by (auto simp: image_iff)
  then show ?thesis by simp
qed

text \<open>
  Claim C1, as amended. For a page with notifications enabled, an owner with a non-empty
  email address and an alert threshold above zero, the downtime alert is handed to the mailer
  exactly when the latest check is down and the streak of trailing down checks equals the
  threshold; on a down check with a longer streak nothing is sent.
\<close>

theorem downtime_alert_iff:
  assumes "notifications_enabled page" and "email (user page) \<noteq> []"
    and "0 < alert_threshold page"
  shows "(sent_kind (handle_post_check_notification tbl page latest) DownAlertMail \<longleftrightarrow>
            \<not> is_up latest \<and> int (trailing_down_streak tbl page) = alert_threshold page) \<and>
         (\<not> is_up latest \<and> alert_threshold page < int (trailing_down_streak tbl page) \<longrightarrow>
            handle_post_check_notification tbl page latest = None)"
  using assms
  by (auto simp: handle_post_check_notification_def sent_kind_def consecutive_failures_streak
      split: option.splits)

theorem downtime_alert_iff_witness:
  "sent_kind (handle_post_check_notification [ex_check 1 10 False, ex_check 2 20 False]
       (ex_page True 2 ''u1@example.com'') (ex_check 2 20 False)) DownAlertMail"
  using downtime_alert_iff [of "ex_page True 2 ''u1@example.com''"
      "[ex_check 1 10 False, ex_check 2 20 False]" "ex_check 2 20 False"]
  by (simp add: ex_page_def ex_user_def ex_check_def trailing_down_streak_def
      order_by_checked_at_desc_def page_checks_def)

text \<open>
  Claim C1 as stated leaves the owner's address out: with notifications enabled, threshold 1
  and one down check, a page whose owner has no email address gets no alert.
\<close>

theorem downtime_alert_no_email_counterexample:
  "notifications_enabled (ex_page True 1 []) \<and> 0 < alert_threshold (ex_page True 1 []) \<and>
   \<not> is_up (ex_check 1 10 False) \<and>
   int (trailing_down_streak [ex_check 1 10 False] (ex_page True 1 [])) = alert_threshold (ex_page True 1 []) \<and>
   \<not> sent_kind (handle_post_check_notification [ex_check 1 10 False] (ex_page True 1 []) (ex_check 1 10 False)) DownAlertMail"
  by (simp add: ex_page_def ex_user_def ex_check_def trailing_down_streak_def
      order_by_checked_at_desc_def page_checks_def handle_post_check_notification_def sent_kind_def)

text \<open>
  Claim C5, as amended. For a page with notifications enabled and an owner with a non-empty
  email address, where the newest row is the latest check, the recovery mail is sent exactly
  when the latest check is up and the check immediately before it was down; two consecutive
  up checks send nothing.
\<close>

theorem recovery_mail_iff:
  assumes "notifications_enabled page" and "email (user page) \<noteq> []"
    and "distinct (map check_pk tbl)"
    and "order_by_checked_at_desc (page_checks tbl page) = latest # older"
  shows "sent_kind (handle_post_check_notification tbl page latest) RecoveredMail \<longleftrightarrow>
           is_up latest \<and> (case older of [] \<Rightarrow> False | prev # _ \<Rightarrow> \<not> is_up prev)"
proof -
  have "distinct (map check_pk (latest # older))"
    using ordered_pks_distinct [OF assms(3), of page] assms(4) by simp
  then have "filter (\<lambda>c. check_pk c \<noteq> check_pk latest) (latest # older) = older"
    by (rule prior_is_next)
  then show ?thesis
    using assms(1,2,4)
    by (auto simp: handle_post_check_notification_def sent_kind_def first_row_def
        split: list.splits)
qed

theorem recovery_mail_iff_witness:
  "sent_kind (handle_post_check_notification [ex_check 1 10 False, ex_check 2 20 True]
       (ex_page True 2 ''u1@example.com'') (ex_check 2 20 True)) RecoveredMail"
  using recovery_mail_iff [of "ex_page True 2 ''u1@example.com''"
      "[ex_check 1 10 False, ex_check 2 20 True]" "ex_check 2 20 True" "[ex_check 1 10 False]"]
  by (simp add: ex_page_def ex_user_def ex_check_def
      order_by_checked_at_desc_def page_checks_def)

text \<open>
  Claim C5 as stated speaks of every page: a page with notifications disabled, and a page
  whose owner has no email address, get no recovery mail when an up check follows a down
  check.
\<close>

theorem recovery_ungated_counterexample:
  "is_up (ex_check 2 20 True) \<and> \<not> is_up (ex_check 1 10 False) \<and>
   order_by_checked_at_desc (page_checks [ex_check 1 10 False, ex_check 2 20 True]
       (ex_page False 2 ''u1@example.com'')) = [ex_check 2 20 True, ex_check 1 10 False] \<and>
   \<not> sent_kind (handle_post_check_notification [ex_check 1 10 False, ex_check 2 20 True]
       (ex_page False 2 ''u1@example.com'') (ex_check 2 20 True)) RecoveredMail \<and>
   \<not> sent_kind (handle_post_check_notification [ex_check 1 10 False, ex_check 2 20 True]
       (ex_page True 2 []) (ex_check 2 20 True)) RecoveredMail"
  by (simp add: ex_page_def ex_user_def ex_check_def
      order_by_checked_at_desc_def page_checks_def handle_post_check_notification_def sent_kind_def)

text \<open>
  Claim C10. With notifications disabled, or an owner without an email address, no mail is
  sent at all, so no recovery mail either, whatever the history.
\<close>

theorem notifications_gated:
  "\<not> notifications_enabled page \<or> email (user page) = [] \<Longrightarrow>
     handle_post_check_notification tbl page latest = None"
  by (auto simp: handle_post_check_notification_def)

theorem notifications_gated_witness:
  "is_up (ex_check 2 20 True) \<and> \<not> is_up (ex_check 1 10 False) \<and>
   handle_post_check_notification [ex_check 1 10 False, ex_check 2 20 True]
       (ex_page True 2 []) (ex_check 2 20 True) = None"
  using notifications_gated [of "ex_page True 2 []"
      "[ex_check 1 10 False, ex_check 2 20 True]" "ex_check 2 20 True"]
  by (simp add: ex_page_def ex_user_def ex_check_def)

section \<open>Properties of the store and of the visual diff\<close>


lemma hamming_eq_0_iff: "hamming a b = 0 \<longleftrightarrow> a = b"
proof
  assume "hamming a b = 0"
  then have "\<forall>i<64. bit a i = bit b i"
    by (auto simp: hamming_def filter_empty_conv)
  then show "a = b"
    by (intro bit_word_eqI) simp
next
  assume "a = b"
  then show "hamming a b = 0" by (simp add: hamming_def)
qed

lemma round_half_even_bounds: "\<lfloor>q\<rfloor> \<le> round_half_even q \<and> round_half_even q \<le> \<lfloor>q\<rfloor> + 1"
  by (simp add: round_half_even_def Let_def)

lemma round_half_even_of_int: "round_half_even (of_int k) = k"
  by (simp add: round_half_even_def Let_def)

lemma score_scaled: "(of_nat d / 64) * 100 * 100 = (of_nat (d * 625) / 4 :: rat)"
  by simp

lemma diff_score_of_0: "diff_score_of 0 = 0"
  using round_half_even_of_int [of 0]
  by (simp add: diff_score_of_def py_round2_def)



lemma diff_score_of_pos: assumes "0 < d" shows "0 < diff_score_of d"
proof -
  have "(1::rat) \<le> of_nat d" using assms by simp
  then have "(1::rat) \<le> of_nat d / 64 * 100 * 100" by simp
  then have "1 \<le> \<lfloor>(of_nat d / 64 * 100 * 100 :: rat)\<rfloor>" by (simp add: le_floor_iff)
  then have "1 \<le> round_half_even (of_nat d / 64 * 100 * 100)"
    using round_half_even_bounds [of "of_nat d / 64 * 100 * 100"] by linarith
  then show ?thesis by (simp add: diff_score_of_def py_round2_def)
qed



text \<open>
  Claim C7 at its failing input. On the generic S3 backend \<open>exists\<close> catches a
  \<open>ClientError\<close>, answers false for the codes 404 and NoSuchKey and raises the error
  again for every other code; here the bucket answers 403.
\<close>

theorem s3_exists_raises:
  "storage_exists (ex_store GenericS3 (Some (ClientError ''403'')) Map.empty) ''1/abc123.jpg''
     = Inl (ClientError ''403'')"
  by (simp add: storage_exists_def ex_store_def head_object_def)

text \<open>The local and the SeaweedFS backends always answer with a boolean.\<close>

lemma exists_total_unless_generic_s3:
  "backend st \<noteq> GenericS3 \<Longrightarrow> \<exists>b. storage_exists st p = Inr b"
  by (cases "backend st") (auto simp: storage_exists_def split: sum.splits exn.splits)

text \<open>
  Claim C3 at its failing input. \<open>compute_diff\<close> asks the store whether the two paths
  exist before its \<open>try\<close> block, so an error raised by \<open>exists\<close> on the generic S3
  backend leaves \<open>compute_diff\<close> as an exception.
\<close>

theorem compute_diff_propagates:
  "compute_diff lb (ex_store GenericS3 (Some ConnectionError) Map.empty) h
      ''1/aaaaaaaaaa.jpg'' ''1/bbbbbbbbbb.jpg'' 1 = Inl ConnectionError"
  by (simp add: compute_diff_def storage_exists_def ex_store_def head_object_def)

text \<open>
  An empty or absent path gives the empty path and no score, and an exception can leave
  \<open>compute_diff\<close> only through \<open>exists\<close>.
\<close>

lemma compute_diff_empty_path:
  "prv = [] \<or> cur = [] \<Longrightarrow> compute_diff lb st h prv cur pid = Inr (([], None), st)"
  by (auto simp: compute_diff_def)

lemma compute_diff_absent:
  "storage_exists st prv = Inr False \<or> (storage_exists st prv = Inr True \<and> storage_exists st cur = Inr False)
   \<Longrightarrow> compute_diff lb st h prv cur pid = Inr (([], None), st)"
  by (auto simp: compute_diff_def)

lemma compute_diff_raises_only_from_exists:
  "compute_diff lb st h prv cur pid = Inl e \<Longrightarrow>
     storage_exists st prv = Inl e \<or> storage_exists st cur = Inl e"
  by (auto simp: compute_diff_def Let_def split: if_splits sum.splits bool.splits option.splits prod.splits)





lemma ex_paths:
  "Path ''1/0000000000.jpg'' = ([], [''1'', ''0000000000.jpg''])"
  "Path ''1/aaaaaaaaaa.jpg'' = ([], [''1'', ''aaaaaaaaaa.jpg''])"
  "Path ''1/cccccccccc.jpg'' = ([], [''1'', ''cccccccccc.jpg''])"
  "Path ''1/bbbbbbbbbb_diff.jpg'' = ([], [''1'', ''bbbbbbbbbb_diff.jpg''])"
  by (simp_all add: Path_def posix_root_def)

lemma int_str_1: "int_str 1 = ''1''"
  by (simp add: int_str_def nat_str.simps [of "Suc 0"] digit_char_def)


lemma split_on_no_sep: "c \<notin> set a \<Longrightarrow> split_on c a = [a]"
  by (induction a) auto

lemma split_on_append: "c \<notin> set a \<Longrightarrow> split_on c (a @ c # b) = a # split_on c b"
  by (induction a) auto

lemma rfind_absent: "c \<notin> set b \<Longrightarrow> rfind c b = None"
  by (induction b) auto

lemma rfind_last: "c \<notin> set b \<Longrightarrow> rfind c (a @ c # b) = Some (length a)"
  by (induction a) (auto simp: rfind_absent)

lemma digit_char_digit: "digit_char d \<in> set ''0123456789''"
proof -
  have "d mod 10 < length ''0123456789''" by simp
  then show ?thesis unfolding digit_char_def by (rule nth_mem)
qed

lemma nat_str_digits: "nat_str n \<noteq> [] \<and> set (nat_str n) \<subseteq> set ''0123456789''"
proof (induction n rule: nat_str.induct)
  case (1 n)
  show ?case
  proof (cases "n < 10")
    case True
    then show ?thesis
      using digit_char_digit [of n] by (subst (1 2) nat_str.simps) simp
  next
    case False
    then show ?thesis
      using 1 digit_char_digit [of "n mod 10"] by (subst (1 2) nat_str.simps) simp
  qed
qed

lemma int_str_plain:
  "int_str i \<noteq> [] \<and> CHR ''/'' \<notin> set (int_str i) \<and> int_str i \<noteq> ''.''"
proof -
  have "CHR ''/'' \<notin> set (nat_str n)" and "CHR ''.'' \<notin> set (nat_str n)" and "nat_str n \<noteq> []" for n
    using nat_str_digits [of n] by auto
  then show ?thesis
    by (auto simp: int_str_def) (metis list.set_intros(1))
qed

lemma Path_two_names:
  assumes "dir \<noteq> []" and "CHR ''/'' \<notin> set dir" and "dir \<noteq> ''.''"
    and "name \<noteq> []" and "CHR ''/'' \<notin> set name" and "name \<noteq> ''.''"
  shows "Path (dir @ ''/'' @ name) = ([], [dir, name])"
proof -
  have "take 1 (dir @ ''/'' @ name) \<noteq> ''/''"
    using assms(1,2) by (cases dir) auto
  then have "posix_root (dir @ ''/'' @ name) = []"
    by (simp add: posix_root_def)
  moreover have "split_on CHR ''/'' (dir @ ''/'' @ name) = [dir, name]"
    using assms(2,5) by (simp add: split_on_append split_on_no_sep)
  ultimately show ?thesis
    using assms by (simp add: Path_def)
qed

lemma stem_of_name:
  assumes "opaque \<noteq> []" and "ext \<noteq> []" and "CHR ''.'' \<notin> set ext"
  shows "path_stem (r, ns @ [opaque @ ''.'' @ ext]) = opaque"
  using assms by (simp add: path_stem_def path_name_def rfind_last Let_def)

lemma derived_name:
  assumes "dir \<noteq> []" and "CHR ''/'' \<notin> set dir" and "dir \<noteq> ''.''"
    and "opaque \<noteq> []" and "CHR ''/'' \<notin> set opaque"
    and "ext \<noteq> []" and "CHR ''/'' \<notin> set ext" and "CHR ''.'' \<notin> set ext"
    and "sfx \<noteq> []" and "CHR ''/'' \<notin> set sfx"
  shows "(case with_name (Path (dir @ ''/'' @ opaque @ ''.'' @ ext))
                 (path_stem (Path (dir @ ''/'' @ opaque @ ''.'' @ ext)) @ sfx) of
            Inl e \<Rightarrow> Inl e | Inr q \<Rightarrow> Inr (path_str q))
          = Inr (dir @ ''/'' @ opaque @ sfx)"
proof -
  have "opaque @ ''.'' @ ext \<noteq> ''.''"
    using assms(4) by (cases opaque) auto
  then have p: "Path (dir @ ''/'' @ opaque @ ''.'' @ ext) = ([], [dir, opaque @ ''.'' @ ext])"
    using assms by (intro Path_two_names) auto
  have s: "path_stem ([], [dir, opaque @ ''.'' @ ext]) = opaque"
    using stem_of_name [of opaque ext "[]" "[dir]"] assms by simp
  have n: "opaque @ sfx \<noteq> ''.''"
    using assms(4,9) by (cases opaque; cases sfx) auto
  show ?thesis
    unfolding p s using assms n by (simp add: with_name_def path_name_def path_str_def)
qed

lemma diff_score_of_pos_iff: "0 < diff_score_of d \<longleftrightarrow> 0 < d"
  using diff_score_of_pos [of d] diff_score_of_0 by (cases "d = 0") auto

lemma hamming_pos_iff: "0 < hamming a b \<longleftrightarrow> a \<noteq> b"
  using hamming_eq_0_iff [of a b] by auto

lemma compute_diff_path:
  "compute_diff lb st h prv cur pid = Inr ((d, sc), st') \<Longrightarrow>
     d = [] \<or> d = unique_filename pid h ''_diff.jpg''"
  by (auto simp: compute_diff_def Let_def
      split: if_splits sum.splits bool.splits option.splits prod.splits)

lemma crop_to_region_path:
  "crop_to_region lb st pages full_rel pid = (Some c, st') \<Longrightarrow> crop_rel_of full_rel = Inr c"
  by (auto simp: crop_to_region_def split: if_splits sum.splits option.splits)

lemma create_thumbnail_path:
  "create_thumbnail lb st source_rel = Inr (t, st') \<Longrightarrow> t = [] \<or> thumb_rel source_rel = Inr t"
  by (auto simp: create_thumbnail_def split: if_splits sum.splits option.splits bool.splits)

text \<open>
  Claim C6, as amended. For a base path \<open><pageId>/<opaqueId>.<ext>\<close> the crop is stored
  at \<open><same-stem>_crop.jpg\<close> and the thumbnail at \<open><same-stem>_thumb.jpg\<close>, both
  functions of the base path alone. The diff image is stored under a freshly generated name
  \<open><pageId>/<fresh id>_diff.jpg\<close>, which does not depend on the base path.
\<close>

theorem derivative_names:
  assumes "opaque \<noteq> []" and "CHR ''/'' \<notin> set opaque"
    and "ext \<noteq> []" and "CHR ''/'' \<notin> set ext" and "CHR ''.'' \<notin> set ext"
    and "base = int_str page_id @ ''/'' @ opaque @ ''.'' @ ext"
  shows "thumb_rel base = Inr (int_str page_id @ ''/'' @ opaque @ ''_thumb.jpg'') \<and>
         crop_rel_of base = Inr (int_str page_id @ ''/'' @ opaque @ ''_crop.jpg'') \<and>
         (\<forall>lb st pages c st'. crop_to_region lb st pages base page_id = (Some c, st') \<longrightarrow>
              c = int_str page_id @ ''/'' @ opaque @ ''_crop.jpg'') \<and>
         (\<forall>lb st t st'. create_thumbnail lb st base = Inr (t, st') \<longrightarrow>
              t = [] \<or> t = int_str page_id @ ''/'' @ opaque @ ''_thumb.jpg'') \<and>
         (\<forall>lb st h prv d sc st'. compute_diff lb st h prv base page_id = Inr ((d, sc), st') \<longrightarrow>
              d = [] \<or> d = unique_filename page_id h ''_diff.jpg'')"
proof -
  have t: "thumb_rel base = Inr (int_str page_id @ ''/'' @ opaque @ ''_thumb.jpg'')"
    unfolding thumb_rel_def Let_def assms(6)
    using assms(1-5) int_str_plain [of page_id] by (intro derived_name) auto
  have c: "crop_rel_of base = Inr (int_str page_id @ ''/'' @ opaque @ ''_crop.jpg'')"
    unfolding crop_rel_of_def Let_def assms(6)
    using assms(1-5) int_str_plain [of page_id] by (intro derived_name) auto
  show ?thesis
    using t c crop_to_region_path [of _ _ _ base page_id] create_thumbnail_path [of _ _ base]
      compute_diff_path [of _ _ _ _ base page_id]
    by (metis sum.inject(2))
qed

theorem derivative_names_witness:
  "thumb_rel ''1/aaaaaaaaaa.jpg'' = Inr ''1/aaaaaaaaaa_thumb.jpg'' \<and>
   crop_rel_of ''1/aaaaaaaaaa.jpg'' = Inr ''1/aaaaaaaaaa_crop.jpg''"
  using derivative_names [of "''aaaaaaaaaa''" "''jpg''" "''1/aaaaaaaaaa.jpg''" 1]
  by (simp add: int_str_1)

lemma ex_paths2:
  "Path ''1/dddddddddd_diff.jpg'' = ([], [''1'', ''dddddddddd_diff.jpg''])"
  by (simp_all add: Path_def posix_root_def)

text \<open>
  Claim C6 as stated puts the diff image at \<open><same-stem>_diff.<ext>\<close>. Two runs on the
  same pair of screenshots store the diff under two different names, neither of them the
  stem of the current screenshot.
\<close>

theorem diff_name_counterexample:
  "map_sum id (fst \<circ> fst)
     (compute_diff ex_libs ex_disk ''bbbbbbbbbb'' ''1/0000000000.jpg'' ''1/aaaaaaaaaa.jpg'' 1)
     = Inr ''1/bbbbbbbbbb_diff.jpg'' \<and>
   map_sum id (fst \<circ> fst)
     (compute_diff ex_libs ex_disk ''dddddddddd'' ''1/0000000000.jpg'' ''1/aaaaaaaaaa.jpg'' 1)
     = Inr ''1/dddddddddd_diff.jpg'' \<and>
   ''1/bbbbbbbbbb_diff.jpg'' \<noteq> ''1/aaaaaaaaaa_diff.jpg''"
  by (simp add: compute_diff_def ex_disk_def ex_store_def ex_libs_def ex_image_def
      storage_exists_def storage_local_path_def storage_save_def local_is_file_def local_abs_def
      ex_paths ex_paths2 path_str_def canvas_def paste_def new_image_def white_def
      diff_score_of_pos_iff hamming_pos_iff unique_filename_def os_path_join_def int_str_1 Let_def)

section \<open>Properties of serving, of the executor and of pruning\<close>

lemma serve_screenshot_checks:
  assumes "serves_artifact (serve_screenshot int_of cfg st pages request_user path)"
  shows "\<exists>u p0 rest page_id.
           request_user = Some u \<and> is_authenticated u \<and>
           ''..'' \<notin> set (path_parts (Path path)) \<and>
           path_parts (Path path) = p0 # rest \<and> int_of p0 = Some page_id \<and>
           (\<exists>p \<in> set pages. pk p = page_id \<and> user_pk (user p) = user_pk u)"
proof -
  obtain u where u: "request_user = Some u" "is_authenticated u"
    using assms
    by (auto simp: serve_screenshot_def serves_artifact_def split: option.splits if_splits)
  have nodots: "''..'' \<notin> set (path_parts (Path path))"
    using assms u
    by (auto simp: serve_screenshot_def serves_artifact_def Let_def split: if_splits)
  obtain p0 rest where parts: "path_parts (Path path) = p0 # rest"
    using assms u nodots
    by (cases "path_parts (Path path)")
       (auto simp: serve_screenshot_def serves_artifact_def Let_def)
  obtain page_id where pid: "int_of p0 = Some page_id"
    using assms u nodots parts
    by (cases "int_of p0") (auto simp: serve_screenshot_def serves_artifact_def Let_def)
  have "filter (\<lambda>p. pk p = page_id \<and> user_pk (user p) = user_pk u) pages \<noteq> []"
    using assms u nodots parts pid
    by (auto simp: serve_screenshot_def serves_artifact_def Let_def split: if_splits)
  then have "\<exists>p \<in> set pages. pk p = page_id \<and> user_pk (user p) = user_pk u"
    by (auto simp: filter_empty_conv)
  then show ?thesis using u nodots parts pid by blast
qed

text \<open>
  Claim C9. \<open>serve_screenshot\<close> answers with bytes or a redirect only to an
  authenticated user who owns the page that the first segment of the path names, for a path
  without a \<open>..\<close> segment. A path with a \<open>..\<close> segment, a first segment that is not
  an integer, and a page the user does not own are answered without the artifact.
\<close>

theorem serve_screenshot_owner_only:
  "(serves_artifact (serve_screenshot int_of cfg st pages request_user path) \<longrightarrow>
      (\<exists>u p0 rest page_id.
           request_user = Some u \<and> is_authenticated u \<and>
           ''..'' \<notin> set (path_parts (Path path)) \<and>
           path_parts (Path path) = p0 # rest \<and> int_of p0 = Some page_id \<and>
           (\<exists>p \<in> set pages. pk p = page_id \<and> user_pk (user p) = user_pk u))) \<and>
   (''..'' \<in> set (path_parts (Path path)) \<longrightarrow>
      \<not> serves_artifact (serve_screenshot int_of cfg st pages request_user path)) \<and>
   ((case path_parts (Path path) of [] \<Rightarrow> True | p0 # _ \<Rightarrow> int_of p0 = None) \<longrightarrow>
      \<not> serves_artifact (serve_screenshot int_of cfg st pages request_user path)) \<and>
   ((\<forall>u p0 rest page_id. request_user = Some u \<and> path_parts (Path path) = p0 # rest \<and>
        int_of p0 = Some page_id \<longrightarrow>
        (\<forall>p \<in> set pages. pk p = page_id \<longrightarrow> user_pk (user p) \<noteq> user_pk u)) \<longrightarrow>
      \<not> serves_artifact (serve_screenshot int_of cfg st pages request_user path))"
  using serve_screenshot_checks [of int_of cfg st pages request_user path]
  by (auto split: list.splits)

theorem serve_screenshot_owner_only_witness:
  "serves_artifact (serve_screenshot ex_int_of ex_settings ex_disk [ex_page False 3 ''u1@example.com'']
       (Some (ex_user ''u1@example.com'')) ''1/aaaaaaaaaa.jpg'') \<and>
   ex_int_of ''1'' = Some 1 \<and> pk (ex_page False 3 ''u1@example.com'') = 1 \<and>
   \<not> serves_artifact (serve_screenshot ex_int_of ex_settings ex_disk [ex_page False 3 ''u1@example.com'']
       (Some (ex_user ''u1@example.com'')) ''1/../1/aaaaaaaaaa.jpg'')"
  using serve_screenshot_owner_only [of ex_int_of ex_settings ex_disk "[ex_page False 3 ''u1@example.com'']"
      "Some (ex_user ''u1@example.com'')" "''1/../1/aaaaaaaaaa.jpg''"]
  by (simp add: serve_screenshot_def serves_artifact_def ex_settings_def ex_disk_def ex_store_def
      ex_page_def ex_user_def ex_paths ex_int_of_def path_parts_def path_str_def Let_def
      storage_exists_def storage_local_path_def local_is_file_def local_abs_def
      Path_def posix_root_def)



lemma storage_save_keeps:
  "storage_save st p data = Inr st' \<Longrightarrow>
     fault st' = fault st \<and> backend st' = backend st \<and> key_prefix st' = key_prefix st"
  by (cases "backend st")
     (auto simp: storage_save_def put_object_def split: option.splits if_splits)




lemma compute_diff_keeps:
  "compute_diff lb st h prv cur pid = Inr (r, st') \<Longrightarrow>
     fault st' = fault st \<and> backend st' = backend st \<and> key_prefix st' = key_prefix st"
  by (auto simp: compute_diff_def Let_def dest: storage_save_keeps
      split: if_splits sum.splits bool.splits option.splits prod.splits)









lemma ex_capture:
  "capture_screenshot ex_libs ex_disk [ex_page_ss] ''eeeeeeeeee'' (url ex_page_ss) 1 =
     ((''1/eeeeeeeeee.jpg'', []),
      ex_disk\<lparr>objects := (objects ex_disk)(''1/eeeeeeeeee.jpg'' \<mapsto> [255],
                                             ''1/eeeeeeeeee_thumb.jpg'' \<mapsto> [255])\<rparr>)"
  by (simp add: capture_screenshot_def ex_libs_def ex_disk_def ex_store_def ex_image_def
      ex_page_ss_def ex_page_def ex_user_def white_def unique_filename_def os_path_join_def
      int_str_1 storage_save_def local_abs_def Path_def posix_root_def path_str_def
      crop_to_region_def get_page_def create_thumbnail_def thumb_rel_def path_stem_def
      path_name_def with_name_def storage_exists_def local_is_file_def storage_local_path_def
      JPEG_QUALITY_def THUMBNAIL_JPEG_QUALITY_def Let_def)

lemma ex_compute_diff:
  "compute_diff ex_libs ex_disk_captured ''ffffffffff'' ''1/aaaaaaaaaa.jpg'' ''1/eeeeeeeeee.jpg'' 1
     = Inr (([], Some 0), ex_disk_captured)"
  by (simp add: compute_diff_def ex_disk_captured_def ex_libs_def ex_disk_def ex_store_def
      ex_image_def storage_exists_def storage_local_path_def local_is_file_def local_abs_def
      Path_def posix_root_def path_str_def canvas_def paste_def new_image_def white_def
      hamming_def diff_score_of_0 Let_def)

lemma ex_capture_and_diff:
  "capture_and_diff ex_libs ex_disk [ex_page_ss] [ex_row_ss 1 10 ''1/aaaaaaaaaa.jpg'' None]
       ex_page_ss True ''eeeeeeeeee'' ''ffffffffff'' =
     ((''1/aaaaaaaaaa.jpg'', [], [], Some 0),
      delete_screenshot_file ex_disk_captured ''1/eeeeeeeeee.jpg'')"
proof -
  have pg: "screenshot_enabled ex_page_ss" "pk ex_page_ss = 1"
    by (simp_all add: ex_page_ss_def ex_page_def)
  have lc: "first_row (order_by_checked_at_desc
               (page_checks [ex_row_ss 1 10 ''1/aaaaaaaaaa.jpg'' None] ex_page_ss))
            = Some (ex_row_ss 1 10 ''1/aaaaaaaaaa.jpg'' None)"
    by (simp add: first_row_def order_by_checked_at_desc_def page_checks_def ex_row_ss_def
        ex_check_def pg)
  have row: "screenshot_path (ex_row_ss 1 10 ''1/aaaaaaaaaa.jpg'' None) = ''1/aaaaaaaaaa.jpg''"
    "crop_path (ex_row_ss 1 10 ''1/aaaaaaaaaa.jpg'' None) = []"
    by (simp_all add: ex_row_ss_def ex_check_def)
  show ?thesis
    unfolding capture_and_diff_def
    by (simp add: pg lc row ex_capture [unfolded ex_disk_captured_def [symmetric]]
        ex_compute_diff Let_def)
qed


text \<open>
  What pruning keeps: within the limit it changes nothing, and it never deletes a row nor
  changes a diff score.
\<close>

lemma cleanup_noop_within_limit:
  "length (checks_with_ss tbl page) \<le> limit \<Longrightarrow>
     cleanup_old_screenshots limit tbl st page = (None, tbl, st)"
  by (simp add: cleanup_old_screenshots_def)

lemma clear_paths_keeps_rows:
  "map check_pk (clear_paths tbl k) = map check_pk tbl \<and>
   map diff_score (clear_paths tbl k) = map diff_score tbl \<and>
   map is_up (clear_paths tbl k) = map is_up tbl \<and>
   map checked_at (clear_paths tbl k) = map checked_at tbl"
  by (induction tbl) (auto simp: clear_paths_def)

lemma prune_loop_keeps_rows:
  "prune_loop cs tbl st = (r, tbl', st') \<Longrightarrow>
     map check_pk tbl' = map check_pk tbl \<and> map diff_score tbl' = map diff_score tbl"
proof (induction cs arbitrary: tbl st)
  case Nil
  then show ?case by simp
next
  case (Cons c cs)
  then show ?case
    by (auto simp: Let_def clear_paths_keeps_rows split: if_splits sum.splits)
qed

lemma cleanup_keeps_rows:
  "cleanup_old_screenshots limit tbl st page = (r, tbl', st') \<Longrightarrow>
     map check_pk tbl' = map check_pk tbl \<and> map diff_score tbl' = map diff_score tbl"
  by (auto simp: cleanup_old_screenshots_def Let_def dest: prune_loop_keeps_rows
      split: if_splits)

text \<open>
  The executor itself writes two rows with one screenshot path: the run above, whose diff
  score is zero, leaves the table with the previous path twice.
\<close>

lemma executor_writes_shared_path:
  "map screenshot_path (table_after (run_single_check ex_libs ex_disk [ex_page_ss]
       [ex_row_ss 1 10 ''1/aaaaaaaaaa.jpg'' None] ex_page_ss (Some 200, True, ''Status 200'')
       ''eeeeeeeeee'' ''ffffffffff'' 20 30)) = [''1/aaaaaaaaaa.jpg'', ''1/aaaaaaaaaa.jpg'']"
  unfolding run_single_check_def prod.case ex_capture_and_diff
  by (simp add: cleanup_old_screenshots_def
      checks_with_ss_def order_by_checked_at_desc_def page_checks_def ex_row_ss_def ex_check_def
      ex_page_ss_def ex_page_def ex_user_def next_pk_def Let_def)

text \<open>
  Claim C2 at its failing input. With a limit of one and two checks that share one
  screenshot path (what the executor writes after a zero diff), pruning clears the older
  row and deletes the file that the newer row, which is kept, still names.
\<close>

theorem prune_deletes_shared_file:
  "cleanup_old_screenshots 1
      [ex_row_ss 1 10 ''1/aaaaaaaaaa.jpg'' None, ex_row_ss 2 20 ''1/aaaaaaaaaa.jpg'' (Some 0)]
      ex_disk (ex_page False 3 ''u1@example.com'') =
     (None,
      [ex_row_ss 1 10 [] None, ex_row_ss 2 20 ''1/aaaaaaaaaa.jpg'' (Some 0)],
      ex_disk\<lparr>objects := (objects ex_disk)(''1/aaaaaaaaaa.jpg'' := None)\<rparr>) \<and>
   storage_exists (ex_disk\<lparr>objects := (objects ex_disk)(''1/aaaaaaaaaa.jpg'' := None)\<rparr>)
      ''1/aaaaaaaaaa.jpg'' = Inr False \<and>
   storage_exists ex_disk ''1/aaaaaaaaaa.jpg'' = Inr True"
  by (simp add: cleanup_old_screenshots_def checks_with_ss_def order_by_checked_at_desc_def
      page_checks_def ex_row_ss_def ex_check_def ex_page_def ex_user_def clear_paths_def
      delete_screenshot_file_def storage_delete_def storage_exists_def local_is_file_def
      local_abs_def Path_def posix_root_def path_str_def thumb_rel_def path_stem_def
      path_name_def with_name_def ex_disk_def ex_store_def Let_def)

end
